theory Spec2Isabelle
  imports Main "HOL-Library.Sublist"
begin

section \<open>Rows, the remote store and the cache\<close>

text \<open>
  The client talks to a PostgREST store whose rows reach Python as dictionaries. A row is
  modelled as one record with the columns that the inventory and currency operations of
  \<^verbatim>\<open>src/core/supabase_client.py\<close> read or write; a column that a table does not have
  simply keeps the value of \<open>empty_row\<close>. Integer columns are Python's unbounded
  integers, nullable text columns are options (\<open>None\<close> is SQL NULL). The columns
  \<^verbatim>\<open>id\<close> and \<^verbatim>\<open>notes\<close> are called \<open>row_id\<close> and \<open>item_notes\<close> here.
\<close>

record row =
  row_id :: string
  storage_location_id :: string
  item_name :: string
  quantity :: int
  is_magic :: bool
  rarity :: "string option"
  item_type :: "string option"
  item_description :: "string option"
  requires_attunement :: bool
  item_notes :: "string option"
  transaction_type :: string
  transfer_location_id :: "string option"
  reason :: string
  copper :: int
  silver :: int
  electrum :: int
  gold :: int
  platinum :: int

definition empty_row :: row where
  "empty_row =
     \<lparr>row_id = [], storage_location_id = [], item_name = [], quantity = 0,
      is_magic = False, rarity = None, item_type = None, item_description = None,
      requires_attunement = False, item_notes = None, transaction_type = [],
      transfer_location_id = None, reason = [],
      copper = 0, silver = 0, electrum = 0, gold = 0, platinum = 0\<rparr>"

text \<open>
  The five keyword arguments \<^verbatim>\<open>copper, silver, electrum, gold, platinum\<close> of the currency
  operations travel together; the field names are the keys of the dictionary that
  \<^verbatim>\<open>transfer_currency\<close> returns.
\<close>

record coins =
  cp :: int
  sp :: int
  ep :: int
  gp :: int
  pp :: int

text \<open>
  The state of the world as the client sees it: the tables of the remote store (by table or
  view name), the counter from which the store draws the next primary key, the shared
  response cache, and the outcomes of the HTTP requests still to come (\<open>True\<close>: the
  request fails and \<^verbatim>\<open>raise_for_status\<close> raises; an exhausted list means that every
  further request succeeds). A failed request leaves the store as it was.
\<close>

record state =
  tables :: "string \<Rightarrow> row list"
  next_id :: nat
  cache :: "string \<rightharpoonup> row list"
  faults :: "bool list"

datatype error = HTTPError | IndexError

type_synonym 'a action = "state \<Rightarrow> (error + 'a) \<times> state"

definition ret :: "'a \<Rightarrow> 'a action" where
  "ret x s = (Inr x, s)"

definition raise :: "error \<Rightarrow> 'a action" where
  "raise e s = (Inl e, s)"

text \<open>Sequencing of two statements: an exception of the first skips the second.\<close>

definition bnd :: "'a action \<Rightarrow> ('a \<Rightarrow> 'b action) \<Rightarrow> 'b action" where
  "bnd m f s = (case m s of (Inl e, s') \<Rightarrow> (Inl e, s') | (Inr x, s') \<Rightarrow> f x s')"

subsection \<open>The store behind the REST interface\<close>

text \<open>
  The store is an external service; it is modelled as far as the operations below use it.
  A filter is a pair of a column and an operator-tagged value, as in the dictionary
  \<^verbatim>\<open>{"item_name": "eq.Torch"}\<close>. Only the equality operator on the text columns
  \<^verbatim>\<open>id\<close>, \<^verbatim>\<open>storage_location_id\<close> and \<^verbatim>\<open>item_name\<close> occurs in the
  operations modelled here; any other filter matches no row. URL encoding is not modelled.
\<close>

definition eq_value :: "string \<Rightarrow> string option" where
  "eq_value cond = (if take 3 cond = ''eq.'' then Some (drop 3 cond) else None)"

definition column :: "row \<Rightarrow> string \<Rightarrow> string option" where
  "column r col =
     (if col = ''id'' then Some (row_id r)
      else if col = ''storage_location_id'' then Some (storage_location_id r)
      else if col = ''item_name'' then Some (item_name r)
      else None)"

definition matches :: "(string \<times> string) list \<Rightarrow> row \<Rightarrow> bool" where
  "matches filters r =
     list_all (\<lambda>(col, cond). case eq_value cond of
                                  None \<Rightarrow> False
                                | Some v \<Rightarrow> column r col = Some v) filters"

text \<open>Primary keys are opaque strings; the store never issues the same key twice.\<close>

definition uuid :: "nat \<Rightarrow> string" where
  "uuid n = CHR ''r'' # replicate n (CHR ''i'')"

fun assign_ids :: "nat \<Rightarrow> row list \<Rightarrow> row list" where
  "assign_ids n [] = []"
| "assign_ids n (r # rs) = r\<lparr>row_id := uuid n\<rparr> # assign_ids (Suc n) rs"

text \<open>
  \<^verbatim>\<open>response.raise_for_status()\<close>: the outcome of the next request is taken from
  \<open>faults\<close>.
\<close>

definition raise_for_status :: "unit action" where
  "raise_for_status s =
     (case faults s of
        [] \<Rightarrow> (Inr (), s)
      | failed # rest \<Rightarrow>
          if failed then (Inl HTTPError, s\<lparr>faults := rest\<rparr>)
          else (Inr (), s\<lparr>faults := rest\<rparr>))"

subsection \<open>Cache Store\<close>

text \<open>
  Modelled from the spec: the Cache Store (\<^verbatim>\<open>src/core/cache.py\<close>, class
  \<^verbatim>\<open>APICache\<close>, is not among the sources; \<^verbatim>\<open>tests/test_cache.py\<close> exercises
  \<open>get\<close>, \<open>set\<close> and \<open>clear_prefix\<close>). \<open>get\<close> returns the stored value or
  nothing, \<open>set\<close> overwrites, \<open>clear_prefix\<close> removes every key that starts with the
  prefix. Expiry is not modelled: the map holds the entries that are alive.
\<close>

definition cache_get :: "(string \<rightharpoonup> row list) \<Rightarrow> string \<Rightarrow> row list option" where
  "cache_get m k = m k"

definition cache_set :: "string \<Rightarrow> row list \<Rightarrow> (string \<rightharpoonup> row list) \<Rightarrow> (string \<rightharpoonup> row list)" where
  "cache_set k v m = m(k \<mapsto> v)"

definition clear_prefix :: "string \<Rightarrow> (string \<rightharpoonup> row list) \<Rightarrow> (string \<rightharpoonup> row list)" where
  "clear_prefix p m = (\<lambda>k. if prefix p k then None else m k)"

section \<open>The Data Access Client\<close>

text \<open>
  Class \<^verbatim>\<open>SupabaseClient\<close>. Of the constructor's arguments the model keeps
  \<open>cache_prefix\<close>. Two things the sources leave open are parameters of the client:
  \<open>hash_query\<close>, the twelve hex digits of the MD5 digest that \<^verbatim>\<open>_hash_query\<close>
  computes from the query parameters, and \<open>cache_bool\<close>, the truth value of the cache
  object in \<^verbatim>\<open>if use_cache and self.cache\<close> (Python asks the object's
  \<^verbatim>\<open>__bool__\<close> or \<^verbatim>\<open>__len__\<close>).
\<close>

record client =
  cache_prefix :: string
  hash_query :: "(string \<times> string) list \<Rightarrow> string"
  cache_bool :: "(string \<rightharpoonup> row list) \<Rightarrow> bool"

definition cache_key :: "client \<Rightarrow> string \<Rightarrow> string \<Rightarrow> string" where
  "cache_key c table query_hash = cache_prefix c @ ''_'' @ table @ ''_'' @ query_hash"

definition invalidate_table_cache :: "client \<Rightarrow> string \<Rightarrow> state \<Rightarrow> state" where
  "invalidate_table_cache c table s =
     s\<lparr>cache := clear_prefix (cache_prefix c @ ''_'' @ table @ ''_'') (cache s)\<rparr>"

text \<open>The dictionary \<^verbatim>\<open>related\<close> of \<^verbatim>\<open>invalidate_related_caches\<close>.\<close>

definition related :: "string \<Rightarrow> string list" where
  "related table =
     (if table = ''inventory_current'' then [''v_inventory'', ''inventory_ledger'']
      else if table = ''inventory_ledger'' then [''v_inventory_history'']
      else if table = ''currency_current'' then [''v_currency_by_location'', ''v_total_wealth'']
      else if table = ''currency_ledger'' then [''v_currency_history'']
      else if table = ''characters'' then
        [''v_characters'', ''character_spells'', ''character_feats'',
         ''character_forms'', ''character_companions'']
      else if table = ''character_spells'' then [''v_character_spells'']
      else if table = ''character_feats'' then [''v_character_feats'']
      else if table = ''character_forms'' then [''v_character_forms'']
      else if table = ''character_companions'' then [''v_character_companions'']
      else if table = ''storage_locations'' then [''v_inventory'', ''v_currency_by_location'']
      else [])"

definition invalidate_related_caches :: "client \<Rightarrow> string \<Rightarrow> state \<Rightarrow> state" where
  "invalidate_related_caches c table s =
     foldl (\<lambda>s' t. invalidate_table_cache c t s') s (table # related table)"

text \<open>
  \<^verbatim>\<open>get\<close>, as the operations below call it: \<^verbatim>\<open>select\<close> is \<^verbatim>\<open>"*"\<close> and no order,
  limit or offset is given.
\<close>

definition get :: "client \<Rightarrow> string \<Rightarrow> (string \<times> string) list \<Rightarrow> bool \<Rightarrow> row list action" where
  "get c table filters use_cache s =
     (let params = (''select'', ''*'') # filters;
          key = cache_key c table (hash_query c params)
      in case (if use_cache \<and> cache_bool c (cache s) then cache_get (cache s) key else None) of
           Some cached \<Rightarrow> (Inr cached, s)
         | None \<Rightarrow>
             bnd raise_for_status
               (\<lambda>_ s1. let data = filter (matches filters) (tables s1 table)
                        in (Inr data,
                            if use_cache \<and> cache_bool c (cache s1)
                            then s1\<lparr>cache := cache_set key data (cache s1)\<rparr> else s1)) s)"

definition first_or_none :: "row list \<Rightarrow> row option" where
  "first_or_none results = (case results of [] \<Rightarrow> None | r # _ \<Rightarrow> Some r)"

definition get_by_id :: "client \<Rightarrow> string \<Rightarrow> string \<Rightarrow> bool \<Rightarrow> row option action" where
  "get_by_id c table i use_cache =
     bnd (get c table [(''id'', ''eq.'' @ i)] use_cache) (\<lambda>results. ret (first_or_none results))"

text \<open>
  \<^verbatim>\<open>insert\<close>: a single dictionary is a list of one row. The store gives every new row
  its primary key and echoes the rows.
\<close>

definition insert_rows :: "client \<Rightarrow> string \<Rightarrow> row list \<Rightarrow> row list action" where
  "insert_rows c table data =
     bnd raise_for_status
       (\<lambda>_ s. let inserted = assign_ids (next_id s) data;
                  s1 = s\<lparr>tables := (tables s)(table := tables s table @ inserted),
                         next_id := next_id s + length data\<rparr>
              in (Inr inserted, invalidate_related_caches c table s1))"

text \<open>\<^verbatim>\<open>update\<close>: the dictionary of new column values is a function on rows.\<close>

definition update :: "client \<Rightarrow> string \<Rightarrow> (row \<Rightarrow> row) \<Rightarrow> (string \<times> string) list \<Rightarrow> row list action" where
  "update c table patch filters =
     bnd raise_for_status
       (\<lambda>_ s. let rows = tables s table;
                  s1 = s\<lparr>tables := (tables s)(table :=
                           map (\<lambda>r. if matches filters r then patch r else r) rows)\<rparr>
              in (Inr (map patch (filter (matches filters) rows)),
                  invalidate_related_caches c table s1))"

definition update_by_id :: "client \<Rightarrow> string \<Rightarrow> string \<Rightarrow> (row \<Rightarrow> row) \<Rightarrow> row option action" where
  "update_by_id c table i patch =
     bnd (update c table patch [(''id'', ''eq.'' @ i)]) (\<lambda>results. ret (first_or_none results))"

definition delete :: "client \<Rightarrow> string \<Rightarrow> (string \<times> string) list \<Rightarrow> row list action" where
  "delete c table filters =
     bnd raise_for_status
       (\<lambda>_ s. let rows = tables s table;
                  s1 = s\<lparr>tables := (tables s)(table := filter (\<lambda>r. \<not> matches filters r) rows)\<rparr>
              in (Inr (filter (matches filters) rows), invalidate_related_caches c table s1))"

definition delete_by_id :: "client \<Rightarrow> string \<Rightarrow> string \<Rightarrow> row option action" where
  "delete_by_id c table i =
     bnd (delete c table [(''id'', ''eq.'' @ i)]) (\<lambda>results. ret (first_or_none results))"

section \<open>Inventory and currency operations\<close>

text \<open>
  What an operation hands back: Python's \<^verbatim>\<open>None\<close>, a row of the store, the dictionary
  \<^verbatim>\<open>{"deleted": True, "item": item}\<close>, a dictionary \<^verbatim>\<open>{"error": message}\<close> (the
  message is kept as its kind and the values it prints), and the two success summaries of
  the transfers.
\<close>

datatype failure =
  ItemNotFound string
| CannotTransfer int int
| NoCurrencyRecord

datatype outcome =
  NoneResult
| Row row
| Deleted row
| Error failure
| Transferred int string
| CurrencyTransferred coins

text \<open>\<^verbatim>\<open>if text:\<close> on an optional string: \<^verbatim>\<open>None\<close> and the empty string are false.\<close>

definition truthy :: "string option \<Rightarrow> string option" where
  "truthy x = (case x of None \<Rightarrow> None | Some v \<Rightarrow> if v = [] then None else Some v)"

text \<open>\<^verbatim>\<open>reason or default\<close>.\<close>

definition or_else :: "string option \<Rightarrow> string \<Rightarrow> string" where
  "or_else x d = (case truthy x of None \<Rightarrow> d | Some v \<Rightarrow> v)"


abbreviation item_key :: "string \<Rightarrow> string \<Rightarrow> (string \<times> string) list" where
  "item_key loc name \<equiv>
     [(''storage_location_id'', ''eq.'' @ loc), (''item_name'', ''eq.'' @ name)]"

abbreviation location_key :: "string \<Rightarrow> (string \<times> string) list" where
  "location_key loc \<equiv> [(''storage_location_id'', ''eq.'' @ loc)]"

definition add_item ::
  "client \<Rightarrow> string \<Rightarrow> string \<Rightarrow> int \<Rightarrow> bool \<Rightarrow> string option \<Rightarrow> string option \<Rightarrow>
   string option \<Rightarrow> bool \<Rightarrow> string option \<Rightarrow> string option \<Rightarrow> outcome action" where
  "add_item c loc name qty magic rar ty descr attune nts why =
     bnd (insert_rows c ''inventory_current''
            [empty_row\<lparr>storage_location_id := loc, item_name := name, quantity := qty,
                       is_magic := magic, rarity := truthy rar, item_type := truthy ty,
                       item_description := truthy descr, requires_attunement := attune,
                       item_notes := truthy nts\<rparr>])
       (\<lambda>result.
     bnd (insert_rows c ''inventory_ledger''
            [empty_row\<lparr>storage_location_id := loc, transaction_type := ''add'',
                       item_name := name, quantity := qty, is_magic := magic,
                       rarity := rar, item_type := ty,
                       reason := or_else why ''Added to inventory''\<rparr>])
       (\<lambda>_. ret (case result of [] \<Rightarrow> NoneResult | r # _ \<Rightarrow> Row r)))"





text \<open>\<^verbatim>\<open>rows[0]\<close> raises \<^verbatim>\<open>IndexError\<close> on an empty list.\<close>

definition first_row :: "row list \<Rightarrow> outcome action" where
  "first_row rows = (case rows of [] \<Rightarrow> raise IndexError | r # _ \<Rightarrow> ret (Row r))"

definition add_currency_from ::
  "client \<Rightarrow> string \<Rightarrow> coins \<Rightarrow> string option \<Rightarrow> row list \<Rightarrow> outcome action" where
  "add_currency_from c loc amount why current =
    (bnd (case current of
            cur # _ \<Rightarrow>
              bnd (update_by_id c ''currency_current'' (row_id cur)
                     (\<lambda>r. r\<lparr>copper := copper cur + cp amount,
                             silver := silver cur + sp amount,
                             electrum := electrum cur + ep amount,
                             gold := gold cur + gp amount,
                             platinum := platinum cur + pp amount\<rparr>)) (\<lambda>_. ret ())
          | [] \<Rightarrow>
              bnd (insert_rows c ''currency_current''
                     [empty_row\<lparr>storage_location_id := loc, copper := cp amount,
                                silver := sp amount, electrum := ep amount,
                                gold := gp amount, platinum := pp amount\<rparr>]) (\<lambda>_. ret ()))
       (\<lambda>_.
     bnd (insert_rows c ''currency_ledger''
            [empty_row\<lparr>storage_location_id := loc, transaction_type := ''add'',
                       copper := cp amount, silver := sp amount, electrum := ep amount,
                       gold := gp amount, platinum := pp amount,
                       reason := or_else why ''Currency added''\<rparr>])
       (\<lambda>_.
     bnd (get c ''currency_current'' (location_key loc) True) first_row)))"

definition add_currency :: "client \<Rightarrow> string \<Rightarrow> coins \<Rightarrow> string option \<Rightarrow> outcome action" where
  "add_currency c loc amount why =
     bnd (get c ''currency_current'' (location_key loc) True) (add_currency_from c loc amount why)"

definition remove_currency_from ::
  "client \<Rightarrow> string \<Rightarrow> coins \<Rightarrow> string option \<Rightarrow> row list \<Rightarrow> outcome action" where
  "remove_currency_from c loc amount why current =
         (case current of
            [] \<Rightarrow> ret (Error NoCurrencyRecord)
          | cur # _ \<Rightarrow>
     bnd (update_by_id c ''currency_current'' (row_id cur)
            (\<lambda>r. r\<lparr>copper := max 0 (copper cur - cp amount),
                    silver := max 0 (silver cur - sp amount),
                    electrum := max 0 (electrum cur - ep amount),
                    gold := max 0 (gold cur - gp amount),
                    platinum := max 0 (platinum cur - pp amount)\<rparr>))
       (\<lambda>_.
     bnd (insert_rows c ''currency_ledger''
            [empty_row\<lparr>storage_location_id := loc, transaction_type := ''remove'',
                       copper := cp amount, silver := sp amount, electrum := ep amount,
                       gold := gp amount, platinum := pp amount,
                       reason := or_else why ''Currency removed''\<rparr>])
       (\<lambda>_.
     bnd (get c ''currency_current'' (location_key loc) True) first_row)))"

definition remove_currency :: "client \<Rightarrow> string \<Rightarrow> coins \<Rightarrow> string option \<Rightarrow> outcome action" where
  "remove_currency c loc amount why =
     bnd (get c ''currency_current'' (location_key loc) True)
       (remove_currency_from c loc amount why)"

definition transfer_currency ::
  "client \<Rightarrow> string \<Rightarrow> string \<Rightarrow> coins \<Rightarrow> string option \<Rightarrow> outcome action" where
  "transfer_currency c from_location_id to_location_id amount why =
     bnd (remove_currency c from_location_id amount
            (Some (''Transfer to another location: '' @ or_else why [])))
       (\<lambda>_.
     bnd (add_currency c to_location_id amount
            (Some (''Transfer from another location: '' @ or_else why [])))
       (\<lambda>_. ret (CurrencyTransferred amount)))"

section \<open>Notions used in the statements\<close>

text \<open>An operation succeeds in a state when it returns instead of raising.\<close>

definition succeeds :: "'a action \<Rightarrow> state \<Rightarrow> bool" where
  "succeeds m s = (case fst (m s) of Inl _ \<Rightarrow> False | Inr _ \<Rightarrow> True)"

text \<open>
  A read of table or view \<open>t\<close> is a cache miss in state \<open>s\<close>: no entry is stored under
  the key of any query hash \<open>h\<close> considered, and \<open>get\<close> with caching returns what
  \<open>get\<close> without caching returns.
\<close>

definition missed :: "client \<Rightarrow> string \<Rightarrow> string \<Rightarrow> (string \<times> string) list \<Rightarrow> state \<Rightarrow> bool" where
  "missed c t h fs s =
     (cache_get (cache s) (cache_key c t h) = None \<and>
      fst (get c t fs True s) = fst (get c t fs False s))"

text \<open>
  The cache is coherent with the store on a set \<open>Q\<close> of queries (filter lists) when
  every entry kept for a query of \<open>Q\<close> on one of the two current-state tables holds the
  rows that the store would return for that query now. The queries of \<open>Q\<close> have
  distinct hashes when \<open>hash_query\<close> maps no two of them to the same digest.
\<close>

abbreviation current_table :: "string \<Rightarrow> bool" where
  "current_table t \<equiv> t = ''inventory_current'' \<or> t = ''currency_current''"

definition coherent :: "client \<Rightarrow> (string \<times> string) list set \<Rightarrow> state \<Rightarrow> bool" where
  "coherent c Q s =
     (\<forall>table fs rows.
        current_table table \<longrightarrow> fs \<in> Q \<longrightarrow>
        cache_get (cache s) (cache_key c table (hash_query c ((''select'', ''*'') # fs))) = Some rows \<longrightarrow>
        rows = filter (matches fs) (tables s table))"

definition distinct_hashes :: "client \<Rightarrow> (string \<times> string) list set \<Rightarrow> bool" where
  "distinct_hashes c Q = inj_on (\<lambda>fs. hash_query c ((''select'', ''*'') # fs)) Q"

text \<open>No entry of table or view \<open>t\<close> is in the cache.\<close>

definition cleared :: "client \<Rightarrow> string \<Rightarrow> state \<Rightarrow> bool" where
  "cleared c t s = (\<forall>h. cache_get (cache s) (cache_key c t h) = None)"

subsection \<open>A concrete client and concrete states\<close>

text \<open>
  The server constructs the client with the prefix \<^verbatim>\<open>campaign\<close>. In the examples the
  query hash is a collision-free encoding of the parameters, and the cache object is true
  when it holds an entry (Python's rule for a class with \<^verbatim>\<open>__len__\<close>).
\<close>

fun encode_text :: "string \<Rightarrow> string" where
  "encode_text [] = ''.''"
| "encode_text (x # xs) = CHR ''c'' # x # encode_text xs"

fun encode_query :: "(string \<times> string) list \<Rightarrow> string" where
  "encode_query [] = ''!''"
| "encode_query ((k, v) # ps) = CHR ''p'' # encode_text k @ encode_text v @ encode_query ps"

definition campaign :: client where
  "campaign = \<lparr>cache_prefix = ''campaign'', hash_query = encode_query,
               cache_bool = (\<lambda>m. m \<noteq> Map.empty)\<rparr>"

definition empty_store :: state where
  "empty_store = \<lparr>tables = (\<lambda>_. []), next_id = 0, cache = Map.empty, faults = []\<rparr>"

definition torch :: row where
  "torch = empty_row\<lparr>row_id := uuid 0, storage_location_id := ''bag'',
                     item_name := ''Torch'', quantity := 3\<rparr>"

text \<open>Three torches in the bag, and a cached read of the view \<^verbatim>\<open>v_inventory\<close>.\<close>

definition viewing :: state where
  "viewing =
     \<lparr>tables = (\<lambda>_. [])(''inventory_current'' := [torch], ''v_inventory'' := [torch]),
      next_id = 1,
      cache = [cache_key campaign ''v_inventory'' (encode_query [(''select'', ''*'')]) \<mapsto> [torch]],
      faults = []\<rparr>"

text \<open>
  The scenario of the spec: in the empty store, two potions of healing are added at
  \<^verbatim>\<open>locA\<close>. The store gives the new row the first key.
\<close>

definition potion_added :: state where
  "potion_added =
     snd (add_item campaign ''locA'' ''Potion of Healing'' 2 False None None None False None None
            empty_store)"

definition potion :: row where
  "potion = empty_row\<lparr>row_id := uuid 0, storage_location_id := ''locA'',
                      item_name := ''Potion of Healing'', quantity := 2\<rparr>"

text \<open>No denomination of a balance row is negative.\<close>

definition non_negative :: "row \<Rightarrow> bool" where
  "non_negative r =
     (0 \<le> copper r \<and> 0 \<le> silver r \<and> 0 \<le> electrum r \<and> 0 \<le> gold r \<and> 0 \<le> platinum r)"

text \<open>An operation handed back a balance row without a negative denomination.\<close>

definition balance_ok :: "outcome \<Rightarrow> bool" where
  "balance_ok out = (case out of Row r \<Rightarrow> non_negative r | _ \<Rightarrow> False)"

text \<open>
  A sequence of \<open>remove_currency\<close> calls on one location, each with its amounts and its
  reason; an exception ends the sequence, as it would end the caller.
\<close>

fun remove_each :: "client \<Rightarrow> string \<Rightarrow> (coins \<times> string option) list \<Rightarrow> outcome list action" where
  "remove_each c loc [] = ret []"
| "remove_each c loc ((amount, why) # calls) =
     bnd (remove_currency c loc amount why)
       (\<lambda>out. bnd (remove_each c loc calls) (\<lambda>outs. ret (out # outs)))"

text \<open>A vault with 5 copper and 10 gold pieces.\<close>

definition purse :: row where
  "purse = empty_row\<lparr>row_id := uuid 0, storage_location_id := ''vault'',
                     copper := 5, gold := 10\<rparr>"

definition vault :: state where
  "vault = \<lparr>tables = (\<lambda>_. [])(''currency_current'' := [purse]), next_id = 1,
            cache = Map.empty, faults = []\<rparr>"

text \<open>
  The spec's description of a currency transfer, written out on states: an independent
  \<open>remove_currency\<close> at the source, followed by an independent \<open>add_currency\<close> at the
  destination in the state that the removal left. An exception of either step ends the
  transfer in the state reached so far; nothing is rolled back.
\<close>

definition remove_then_add ::
  "client \<Rightarrow> string \<Rightarrow> string \<Rightarrow> coins \<Rightarrow> string option \<Rightarrow> outcome action" where
  "remove_then_add c src dst amount why s =
     (case remove_currency c src amount
             (Some (''Transfer to another location: '' @ or_else why [])) s of
        (Inl e, s1) \<Rightarrow> (Inl e, s1)
      | (Inr _, s1) \<Rightarrow>
          (case add_currency c dst amount
                  (Some (''Transfer from another location: '' @ or_else why [])) s1 of
             (Inl e, s2) \<Rightarrow> (Inl e, s2)
           | (Inr _, s2) \<Rightarrow> (Inr (CurrencyTransferred amount), s2)))"

text \<open>The vault, when the fifth request from now fails.\<close>

definition failing_vault :: state where
  "failing_vault = vault\<lparr>faults := [False, False, False, False, True]\<rparr>"


section \<open>Properties\<close>

subsection \<open>Basic facts\<close>

lemma eq_value_eq [simp]: "eq_value (CHR ''e'' # CHR ''q'' # CHR ''.'' # v) = Some v"
  by (simp add: eq_value_def)

lemma matches_id [simp]:
  "matches [(''id'', CHR ''e'' # CHR ''q'' # CHR ''.'' # i)] r = (row_id r = i)"
  by (simp add: matches_def column_def)

lemma matches_item_key [simp]:
  "matches [(''storage_location_id'', CHR ''e'' # CHR ''q'' # CHR ''.'' # loc),
            (''item_name'', CHR ''e'' # CHR ''q'' # CHR ''.'' # name)] r =
     (storage_location_id r = loc \<and> item_name r = name)"
  by (simp add: matches_def column_def)

lemma matches_location_key [simp]:
  "matches [(''storage_location_id'', CHR ''e'' # CHR ''q'' # CHR ''.'' # loc)] r =
     (storage_location_id r = loc)"
  by (simp add: matches_def column_def)

lemma matches_id_fun [simp]:
  "matches [(''id'', CHR ''e'' # CHR ''q'' # CHR ''.'' # i)] = (\<lambda>r. row_id r = i)"
  by (rule ext) simp

lemma matches_item_key_fun [simp]:
  "matches [(''storage_location_id'', CHR ''e'' # CHR ''q'' # CHR ''.'' # loc),
            (''item_name'', CHR ''e'' # CHR ''q'' # CHR ''.'' # name)] =
     (\<lambda>r. storage_location_id r = loc \<and> item_name r = name)"
  by (rule ext) simp

lemma matches_location_key_fun [simp]:
  "matches [(''storage_location_id'', CHR ''e'' # CHR ''q'' # CHR ''.'' # loc)] =
     (\<lambda>r. storage_location_id r = loc)"
  by (rule ext) simp

lemma raise_for_status_ok [simp]: "faults s = [] \<Longrightarrow> raise_for_status s = (Inr (), s)"
  by (simp add: raise_for_status_def)

lemma bnd_ret [simp]: "bnd (ret x) f = f x"
  by (rule ext) (simp add: bnd_def ret_def)

lemma bnd_Inr [simp]: "m s = (Inr x, s') \<Longrightarrow> bnd m f s = f x s'"
  by (simp add: bnd_def)

lemma bnd_Inl [simp]: "m s = (Inl e, s') \<Longrightarrow> bnd m f s = (Inl e, s')"
  by (simp add: bnd_def)

lemma invalidate_table_cache_sel [simp]:
  "tables (invalidate_table_cache c t s) = tables s"
  "next_id (invalidate_table_cache c t s) = next_id s"
  "faults (invalidate_table_cache c t s) = faults s"
  by (simp_all add: invalidate_table_cache_def)

lemma foldl_invalidate_sel:
  "tables (foldl (\<lambda>s' t. invalidate_table_cache c t s') s ts) = tables s \<and>
   next_id (foldl (\<lambda>s' t. invalidate_table_cache c t s') s ts) = next_id s \<and>
   faults (foldl (\<lambda>s' t. invalidate_table_cache c t s') s ts) = faults s"
  by (induction ts arbitrary: s) simp_all

lemma invalidate_related_caches_sel [simp]:
  "tables (invalidate_related_caches c t s) = tables s"
  "next_id (invalidate_related_caches c t s) = next_id s"
  "faults (invalidate_related_caches c t s) = faults s"
  by (simp_all add: invalidate_related_caches_def foldl_invalidate_sel)

lemma foldl_invalidate_cache:
  "cache (foldl (\<lambda>s' t. invalidate_table_cache c t s') s ts) k =
     (if \<exists>t \<in> set ts. prefix (cache_prefix c @ ''_'' @ t @ ''_'') k then None else cache s k)"
  by (induction ts arbitrary: s) (auto simp: invalidate_table_cache_def clear_prefix_def)

lemma cache_invalidate_related:
  "cache (invalidate_related_caches c table s) k =
     (if \<exists>t \<in> set (table # related table). prefix (cache_prefix c @ ''_'' @ t @ ''_'') k
      then None else cache s k)"
  unfolding invalidate_related_caches_def by (rule foldl_invalidate_cache)

lemma prefix_cache_key [simp]: "prefix (cache_prefix c @ ''_'' @ t @ ''_'') (cache_key c t h)"
  by (simp add: cache_key_def)

lemma encode_text_inj: "encode_text a @ r = encode_text b @ r' \<Longrightarrow> a = b \<and> r = r'"
proof (induction a arbitrary: b)
  case Nil
  then show ?case by (cases b) auto
next
  case (Cons x xs)
  then show ?case by (cases b) auto
qed

lemma encode_query_inj: "encode_query p = encode_query q \<Longrightarrow> p = q"
proof (induction p arbitrary: q)
  case Nil
  then show ?case by (cases q) auto
next
  case (Cons a p)
  obtain k v where a: "a = (k, v)" by (cases a)
  show ?case
  proof (cases q)
    case Nil
    with Cons.prems a show ?thesis by simp
  next
    case (Cons b q')
    obtain k' v' where b: "b = (k', v')" by (cases b)
    from Cons.prems a b Cons
    have e: "encode_text k @ (encode_text v @ encode_query p) =
             encode_text k' @ (encode_text v' @ encode_query q')" by simp
    from encode_text_inj [OF e] have k: "k = k'"
      and e2: "encode_text v @ encode_query p = encode_text v' @ encode_query q'" by auto
    from encode_text_inj [OF e2] have "v = v'" and "encode_query p = encode_query q'" by auto
    with Cons.IH k a b Cons show ?thesis by auto
  qed
qed

lemma inj_encode_query: "inj encode_query"
  by (rule injI) (rule encode_query_inj)

lemma get_tables [simp]:
  "tables (snd (get c t fs uc s)) = tables s"
  "next_id (snd (get c t fs uc s)) = next_id s"
  by (auto simp: get_def bnd_def raise_for_status_def Let_def split: option.splits list.splits)

lemma get_faults [simp]: "faults s = [] \<Longrightarrow> faults (snd (get c t fs uc s)) = []"
  by (auto simp: get_def bnd_def raise_for_status_def Let_def split: option.splits list.splits)

lemma get_rows:
  "faults s = [] \<Longrightarrow> coherent c Q s \<Longrightarrow> fs \<in> Q \<Longrightarrow> current_table t \<Longrightarrow>
   fst (get c t fs True s) = Inr (filter (matches fs) (tables s t))"
  by (auto simp: get_def bnd_def coherent_def Let_def split: option.splits)

lemma cache_key_table:
  "current_table t \<Longrightarrow> current_table t' \<Longrightarrow> cache_key c t h = cache_key c t' h' \<Longrightarrow> t = t' \<and> h = h'"
  by (auto simp: cache_key_def)

lemma get_cache:
  assumes "cache (snd (get c t fs True s)) k = Some rows" "faults s = []"
  shows "cache s k = Some rows \<or>
         (k = cache_key c t (hash_query c ((''select'', ''*'') # fs)) \<and>
          rows = filter (matches fs) (tables s t))"
  using assms
  by (auto simp: get_def bnd_def Let_def cache_set_def cache_get_def
           split: option.splits if_splits)

lemma get_coherent:
  assumes "distinct_hashes c Q" "coherent c Q s" "current_table t" "faults s = []" "fs \<in> Q"
  shows "coherent c Q (snd (get c t fs True s))"
  unfolding coherent_def
proof (intro allI impI)
  fix table fs' rows
  assume ct: "current_table table" and q: "fs' \<in> Q"
    and hit: "cache_get (cache (snd (get c t fs True s)))
                (cache_key c table (hash_query c ((''select'', ''*'') # fs'))) = Some rows"
  from hit have "cache (snd (get c t fs True s))
                (cache_key c table (hash_query c ((''select'', ''*'') # fs'))) = Some rows"
    by (simp add: cache_get_def)
  from get_cache [OF this assms(4)]
  show "rows = filter (matches fs') (tables (snd (get c t fs True s)) table)"
  proof
    assume "cache s (cache_key c table (hash_query c ((''select'', ''*'') # fs'))) = Some rows"
    with assms(2) ct q have "rows = filter (matches fs') (tables s table)"
      unfolding coherent_def cache_get_def by blast
    then show ?thesis by simp
  next
    assume k: "cache_key c table (hash_query c ((''select'', ''*'') # fs')) =
               cache_key c t (hash_query c ((''select'', ''*'') # fs)) \<and>
               rows = filter (matches fs) (tables s t)"
    with cache_key_table [OF ct assms(3)] have "table = t"
      and "hash_query c ((''select'', ''*'') # fs') = hash_query c ((''select'', ''*'') # fs)"
      by auto
    with assms(1,5) q have "table = t" "fs' = fs"
      by (auto simp: distinct_hashes_def dest: inj_onD)
    with k show ?thesis by simp
  qed
qed

lemma succeeds_bnd_ret [simp]:
  "succeeds (bnd m (\<lambda>x. ret (f x))) s = succeeds m s"
  by (simp add: succeeds_def bnd_def ret_def split: prod.splits sum.splits)

lemma snd_bnd_ret [simp]: "snd (bnd m (\<lambda>x. ret (f x)) s) = snd (m s)"
  by (simp add: bnd_def ret_def split: prod.splits sum.splits)

lemma insert_rows_post:
  "succeeds (insert_rows c table data) s \<Longrightarrow>
   \<exists>s1. snd (insert_rows c table data s) = invalidate_related_caches c table s1"
  by (auto simp: succeeds_def insert_rows_def bnd_def raise_for_status_def Let_def
           split: list.splits if_splits)

lemma update_post:
  "succeeds (update c table patch fs) s \<Longrightarrow>
   \<exists>s1. snd (update c table patch fs s) = invalidate_related_caches c table s1"
  by (auto simp: succeeds_def update_def bnd_def raise_for_status_def Let_def
           split: list.splits if_splits)

lemma delete_post:
  "succeeds (delete c table fs) s \<Longrightarrow>
   \<exists>s1. snd (delete c table fs s) = invalidate_related_caches c table s1"
  by (auto simp: succeeds_def delete_def bnd_def raise_for_status_def Let_def
           split: list.splits if_splits)

lemma invalidated_miss:
  "t \<in> set (table # related table) \<Longrightarrow>
   cache_get (cache (invalidate_related_caches c table s1)) (cache_key c t h) = None"
  unfolding cache_get_def cache_invalidate_related
  using prefix_cache_key by (metis (no_types, lifting))

lemma get_uncached:
  "cache_get (cache s) (cache_key c t (hash_query c ((''select'', ''*'') # fs))) = None \<Longrightarrow>
   fst (get c t fs True s) = fst (get c t fs False s)"
  by (simp add: get_def bnd_def raise_for_status_def Let_def split: list.splits)

lemma missed_after:
  "t \<in> set (table # related table) \<Longrightarrow> missed c t h fs (invalidate_related_caches c table s1)"
  unfolding missed_def using invalidated_miss get_uncached by blast

lemma viewing_simps [simp]: "faults viewing = []"
  by (simp add: viewing_def)

lemma succeeds_writes [simp]:
  "faults s = [] \<Longrightarrow> succeeds (insert_rows c table data) s"
  "faults s = [] \<Longrightarrow> succeeds (update c table patch filters) s"
  "faults s = [] \<Longrightarrow> succeeds (delete c table filters) s"
  "faults s = [] \<Longrightarrow> succeeds (update_by_id c table i patch) s"
  "faults s = [] \<Longrightarrow> succeeds (delete_by_id c table i) s"
  by (simp_all add: succeeds_def insert_rows_def update_def delete_def update_by_id_def
        delete_by_id_def bnd_def raise_for_status_def ret_def Let_def)

subsection \<open>Writes invalidate the dependent caches\<close>

text \<open>
  C6. Every successful write of the Data Access Client (\<open>insert\<close>, \<open>update\<close>,
  \<open>delete\<close>, \<open>update_by_id\<close>, \<open>delete_by_id\<close>) on a table invalidates the cache
  entries of that table and of every table or view that the dictionary \<open>related\<close>
  lists for it: whatever the query hash, no entry is left under the key of such a table,
  and a read of it right after the write returns what an uncached read returns.
\<close>

theorem writes_invalidate_dependents:
  assumes "t \<in> set (table # related table)"
  shows "(succeeds (insert_rows c table data) s \<longrightarrow>
            missed c t h fs (snd (insert_rows c table data s))) \<and>
         (succeeds (update c table patch filters) s \<longrightarrow>
            missed c t h fs (snd (update c table patch filters s))) \<and>
         (succeeds (delete c table filters) s \<longrightarrow>
            missed c t h fs (snd (delete c table filters s))) \<and>
         (succeeds (update_by_id c table i patch) s \<longrightarrow>
            missed c t h fs (snd (update_by_id c table i patch s))) \<and>
         (succeeds (delete_by_id c table i) s \<longrightarrow>
            missed c t h fs (snd (delete_by_id c table i s)))"
proof (intro conjI impI)
  assume "succeeds (insert_rows c table data) s"
  from insert_rows_post [OF this] missed_after [OF assms]
  show "missed c t h fs (snd (insert_rows c table data s))" by auto
next
  assume "succeeds (update c table patch filters) s"
  from update_post [OF this] missed_after [OF assms]
  show "missed c t h fs (snd (update c table patch filters s))" by auto
next
  assume "succeeds (delete c table filters) s"
  from delete_post [OF this] missed_after [OF assms]
  show "missed c t h fs (snd (delete c table filters s))" by auto
next
  assume "succeeds (update_by_id c table i patch) s"
  then have "succeeds (update c table patch [(''id'', ''eq.'' @ i)]) s"
    by (simp add: update_by_id_def)
  from update_post [OF this] missed_after [OF assms]
  show "missed c t h fs (snd (update_by_id c table i patch s))"
    by (auto simp: update_by_id_def)
next
  assume "succeeds (delete_by_id c table i) s"
  then have "succeeds (delete c table [(''id'', ''eq.'' @ i)]) s"
    by (simp add: delete_by_id_def)
  from delete_post [OF this] missed_after [OF assms]
  show "missed c t h fs (snd (delete_by_id c table i s))"
    by (auto simp: delete_by_id_def)
qed

theorem writes_invalidate_dependents_witness:
  "''v_inventory'' \<in> set (''inventory_current'' # related ''inventory_current'') \<and>
   cache_get (cache viewing)
     (cache_key campaign ''v_inventory'' (encode_query [(''select'', ''*'')])) = Some [torch] \<and>
   succeeds (insert_rows campaign ''inventory_current'' [torch]) viewing \<and>
   missed campaign ''v_inventory'' (encode_query [(''select'', ''*'')]) []
     (snd (insert_rows campaign ''inventory_current'' [torch] viewing)) \<and>
   succeeds (update campaign ''inventory_current'' (\<lambda>r. r\<lparr>quantity := 5\<rparr>)
     (item_key ''bag'' ''Torch'')) viewing \<and>
   missed campaign ''v_inventory'' (encode_query [(''select'', ''*'')]) []
     (snd (update campaign ''inventory_current'' (\<lambda>r. r\<lparr>quantity := 5\<rparr>)
        (item_key ''bag'' ''Torch'') viewing)) \<and>
   succeeds (delete campaign ''inventory_current'' (item_key ''bag'' ''Torch'')) viewing \<and>
   missed campaign ''v_inventory'' (encode_query [(''select'', ''*'')]) []
     (snd (delete campaign ''inventory_current'' (item_key ''bag'' ''Torch'') viewing)) \<and>
   succeeds (update_by_id campaign ''inventory_current'' (uuid 0) (\<lambda>r. r\<lparr>quantity := 5\<rparr>)) viewing \<and>
   missed campaign ''v_inventory'' (encode_query [(''select'', ''*'')]) []
     (snd (update_by_id campaign ''inventory_current'' (uuid 0) (\<lambda>r. r\<lparr>quantity := 5\<rparr>) viewing)) \<and>
   succeeds (delete_by_id campaign ''inventory_current'' (uuid 0)) viewing \<and>
   missed campaign ''v_inventory'' (encode_query [(''select'', ''*'')]) []
     (snd (delete_by_id campaign ''inventory_current'' (uuid 0) viewing))"
proof -
  have m: "''v_inventory'' \<in> set (''inventory_current'' # related ''inventory_current'')"
    by (simp add: related_def)
  have hit: "cache_get (cache viewing)
     (cache_key campaign ''v_inventory'' (encode_query [(''select'', ''*'')])) = Some [torch]"
    by (simp add: cache_get_def viewing_def)
  show ?thesis
    using m hit
      writes_invalidate_dependents [OF m, of campaign "[torch]" viewing
        "encode_query [(''select'', ''*'')]" "[]" "\<lambda>r. r\<lparr>quantity := 5\<rparr>"
        "item_key ''bag'' ''Torch''" "uuid 0"]
    by simp
qed

subsection \<open>The client's operations when no request fails\<close>

lemma insert_rows_ok:
  "faults s = [] \<Longrightarrow>
   insert_rows c t data s =
     (Inr (assign_ids (next_id s) data),
      invalidate_related_caches c t
        (s\<lparr>tables := (tables s)(t := tables s t @ assign_ids (next_id s) data),
           next_id := next_id s + length data\<rparr>))"
  by (simp add: insert_rows_def Let_def)

lemma update_ok:
  "faults s = [] \<Longrightarrow>
   update c t patch fs s =
     (Inr (map patch (filter (matches fs) (tables s t))),
      invalidate_related_caches c t
        (s\<lparr>tables := (tables s)(t := map (\<lambda>r. if matches fs r then patch r else r) (tables s t))\<rparr>))"
  by (simp add: update_def Let_def)

lemma delete_ok:
  "faults s = [] \<Longrightarrow>
   delete c t fs s =
     (Inr (filter (matches fs) (tables s t)),
      invalidate_related_caches c t
        (s\<lparr>tables := (tables s)(t := filter (\<lambda>r. \<not> matches fs r) (tables s t))\<rparr>))"
  by (simp add: delete_def Let_def)

lemma update_by_id_ok:
  "faults s = [] \<Longrightarrow>
   update_by_id c t i patch s =
     (Inr (first_or_none (map patch (filter (\<lambda>r. row_id r = i) (tables s t)))),
      invalidate_related_caches c t
        (s\<lparr>tables := (tables s)(t := map (\<lambda>r. if row_id r = i then patch r else r) (tables s t))\<rparr>))"
  by (simp add: update_by_id_def update_ok ret_def)

lemma delete_by_id_ok:
  "faults s = [] \<Longrightarrow>
   delete_by_id c t i s =
     (Inr (first_or_none (filter (\<lambda>r. row_id r = i) (tables s t))),
      invalidate_related_caches c t
        (s\<lparr>tables := (tables s)(t := filter (\<lambda>r. row_id r \<noteq> i) (tables s t))\<rparr>))"
  by (simp add: delete_by_id_def delete_ok ret_def)

lemma coherent_invalidate:
  assumes "coherent c Q s" "cache s1 = cache s" "\<And>u. current_table u \<Longrightarrow> u \<noteq> t \<Longrightarrow> tables s1 u = tables s u"
  shows "coherent c Q (invalidate_related_caches c t s1)"
  unfolding coherent_def
proof (intro allI impI)
  fix table fs rows
  assume ct: "current_table table" and q: "fs \<in> Q"
    and hit: "cache_get (cache (invalidate_related_caches c t s1))
                (cache_key c table (hash_query c ((''select'', ''*'') # fs))) = Some rows"
  have ne: "table \<noteq> t"
  proof
    assume "table = t"
    with hit invalidated_miss [of t t c s1] show False by simp
  qed
  from hit have "cache s (cache_key c table (hash_query c ((''select'', ''*'') # fs))) = Some rows"
    by (simp add: cache_get_def cache_invalidate_related assms(2) split: if_splits)
  with assms(1) ct q have "rows = filter (matches fs) (tables s table)"
    unfolding coherent_def cache_get_def by blast
  with assms(3) [OF ct ne] show "rows = filter (matches fs) (tables (invalidate_related_caches c t s1) table)"
    by simp
qed

lemma coherent_after_write [simp]:
  "coherent c Q s \<Longrightarrow>
   coherent c Q (invalidate_related_caches c t (s\<lparr>tables := (tables s)(t := rows)\<rparr>))"
  "coherent c Q s \<Longrightarrow>
   coherent c Q (invalidate_related_caches c t (s\<lparr>tables := (tables s)(t := rows), next_id := n\<rparr>))"
  by (rule coherent_invalidate [of c Q s]; simp)+

lemmas write_ok = insert_rows_ok update_ok delete_ok update_by_id_ok delete_by_id_ok

lemma bnd_split:
  "bnd m f s = (case fst (m s) of Inl e \<Rightarrow> (Inl e, snd (m s)) | Inr x \<Rightarrow> f x (snd (m s)))"
  by (simp add: bnd_def split: prod.splits sum.splits)

lemma ret_sel [simp]: "fst (ret x s) = Inr x" "snd (ret x s) = s"
  by (simp_all add: ret_def)

lemma cleared_invalidate [simp]: "cleared c t (invalidate_related_caches c t s)"
  by (simp add: cleared_def invalidated_miss)

lemma cleared_invalidate_other:
  "cleared c u s1 \<Longrightarrow> cleared c u (invalidate_related_caches c t s1)"
  by (simp add: cleared_def cache_get_def cache_invalidate_related)

lemma cleared_upd [simp]:
  "cleared c u (s\<lparr>tables := T\<rparr>) = cleared c u s"
  "cleared c u (s\<lparr>tables := T, next_id := n\<rparr>) = cleared c u s"
  by (simp_all add: cleared_def)

lemma insert_rows_sel:
  assumes "faults s = []"
  shows "fst (insert_rows c t data s) = Inr (assign_ids (next_id s) data)"
    and "tables (snd (insert_rows c t data s)) = (tables s)(t := tables s t @ assign_ids (next_id s) data)"
    and "next_id (snd (insert_rows c t data s)) = next_id s + length data"
    and "faults (snd (insert_rows c t data s)) = []"
    and "cleared c t (snd (insert_rows c t data s))"
    and "cleared c u s \<Longrightarrow> cleared c u (snd (insert_rows c t data s))"
    and "coherent c Q s \<Longrightarrow> coherent c Q (snd (insert_rows c t data s))"
  using assms by (simp_all add: insert_rows_ok cleared_invalidate_other)

lemma update_by_id_sel:
  assumes "faults s = []"
  shows "fst (update_by_id c t i patch s) =
           Inr (first_or_none (map patch (filter (\<lambda>r. row_id r = i) (tables s t))))"
    and "tables (snd (update_by_id c t i patch s)) =
           (tables s)(t := map (\<lambda>r. if row_id r = i then patch r else r) (tables s t))"
    and "next_id (snd (update_by_id c t i patch s)) = next_id s"
    and "faults (snd (update_by_id c t i patch s)) = []"
    and "cleared c t (snd (update_by_id c t i patch s))"
    and "cleared c u s \<Longrightarrow> cleared c u (snd (update_by_id c t i patch s))"
    and "coherent c Q s \<Longrightarrow> coherent c Q (snd (update_by_id c t i patch s))"
  using assms by (simp_all add: update_by_id_ok cleared_invalidate_other)

lemma delete_by_id_sel:
  assumes "faults s = []"
  shows "fst (delete_by_id c t i s) = Inr (first_or_none (filter (\<lambda>r. row_id r = i) (tables s t)))"
    and "tables (snd (delete_by_id c t i s)) =
           (tables s)(t := filter (\<lambda>r. row_id r \<noteq> i) (tables s t))"
    and "next_id (snd (delete_by_id c t i s)) = next_id s"
    and "faults (snd (delete_by_id c t i s)) = []"
    and "cleared c t (snd (delete_by_id c t i s))"
    and "cleared c u s \<Longrightarrow> cleared c u (snd (delete_by_id c t i s))"
    and "coherent c Q s \<Longrightarrow> coherent c Q (snd (delete_by_id c t i s))"
  using assms by (simp_all add: delete_by_id_ok cleared_invalidate_other)

lemma delete_sel:
  assumes "faults s = []"
  shows "fst (delete c t fs s) = Inr (filter (matches fs) (tables s t))"
    and "tables (snd (delete c t fs s)) = (tables s)(t := filter (\<lambda>r. \<not> matches fs r) (tables s t))"
    and "next_id (snd (delete c t fs s)) = next_id s"
    and "faults (snd (delete c t fs s)) = []"
    and "cleared c t (snd (delete c t fs s))"
    and "cleared c u s \<Longrightarrow> cleared c u (snd (delete c t fs s))"
    and "coherent c Q s \<Longrightarrow> coherent c Q (snd (delete c t fs s))"
  using assms by (simp_all add: delete_ok cleared_invalidate_other)

lemma update_sel:
  assumes "faults s = []"
  shows "fst (update c t patch fs s) = Inr (map patch (filter (matches fs) (tables s t)))"
    and "tables (snd (update c t patch fs s)) =
           (tables s)(t := map (\<lambda>r. if matches fs r then patch r else r) (tables s t))"
    and "next_id (snd (update c t patch fs s)) = next_id s"
    and "faults (snd (update c t patch fs s)) = []"
    and "cleared c t (snd (update c t patch fs s))"
    and "cleared c u s \<Longrightarrow> cleared c u (snd (update c t patch fs s))"
    and "coherent c Q s \<Longrightarrow> coherent c Q (snd (update c t patch fs s))"
  using assms by (simp_all add: update_ok cleared_invalidate_other)

lemma get_cleared:
  "faults s = [] \<Longrightarrow> cleared c t s \<Longrightarrow>
   fst (get c t fs True s) = Inr (filter (matches fs) (tables s t))"
  by (simp add: get_def cleared_def bnd_def Let_def)

lemma get_kept_cleared:
  "u \<noteq> t \<Longrightarrow> current_table u \<Longrightarrow> current_table t \<Longrightarrow> cleared c u s \<Longrightarrow>
   cleared c u (snd (get c t fs uc s))"
  by (auto simp: cleared_def get_def bnd_def Let_def cache_get_def cache_set_def
        raise_for_status_def cache_key_def split: option.splits list.splits)

lemmas get_sel = get_rows get_tables get_faults get_coherent get_cleared

lemmas write_sel = insert_rows_sel update_by_id_sel delete_by_id_sel delete_sel update_sel

lemma filter_map_patch:
  "(\<And>r. P (f r) = P r) \<Longrightarrow>
   filter P (map (\<lambda>r. if C r then f r else r) rows) =
   map (\<lambda>r. if C r then f r else r) (filter P rows)"
  by (induction rows) auto

lemma distinct_hashes_single [simp]: "distinct_hashes c {q}"
  by (simp add: distinct_hashes_def)

subsection \<open>Facts about the concrete states\<close>

lemma empty_store_sel [simp]:
  "faults empty_store = []" "tables empty_store = (\<lambda>_. [])" "next_id empty_store = 0"
  "cache empty_store = Map.empty"
  by (simp_all add: empty_store_def)

lemma coherent_empty_cache: "cache s = Map.empty \<Longrightarrow> coherent c Q s"
  by (simp add: coherent_def cache_get_def)

lemma clear_prefix_empty [simp]: "clear_prefix p Map.empty = Map.empty"
  by (rule ext) (simp add: clear_prefix_def)

lemma invalidate_related_empty [simp]:
  "cache s = Map.empty \<Longrightarrow> cache (invalidate_related_caches c t s) = Map.empty"
  by (rule ext) (simp add: cache_invalidate_related)

lemma empty_cache_kept:
  assumes "faults s = []" and "cache s = Map.empty"
  shows "cache (snd (insert_rows c t data s)) = Map.empty"
    and "cache (snd (update c t patch fs s)) = Map.empty"
    and "cache (snd (delete c t fs s)) = Map.empty"
    and "cache (snd (update_by_id c t i patch s)) = Map.empty"
    and "cache (snd (delete_by_id c t i s)) = Map.empty"
  using assms by (simp_all add: write_ok)

lemma potion_added_sel [simp]:
  "faults potion_added = []"
  "cache potion_added = Map.empty"
  "next_id potion_added = 2"
  "tables potion_added ''inventory_current'' = [potion]"
  "tables potion_added ''inventory_ledger'' =
     [empty_row\<lparr>row_id := uuid 1, storage_location_id := ''locA'', item_name := ''Potion of Healing'',
                 quantity := 2, transaction_type := ''add'', reason := ''Added to inventory''\<rparr>]"
  by (simp_all add: potion_added_def add_item_def bnd_split write_sel empty_cache_kept
        potion_def truthy_def or_else_def empty_row_def)

subsection \<open>Removing at least the current quantity\<close>




subsection \<open>A zero quantity is an omitted quantity\<close>



lemma remove_currency_step:
  assumes "faults s = []" and "coherent c {location_key loc} s"
    and "filter (matches (location_key loc)) (tables s ''currency_current'') = cur # rest"
  shows "\<exists>new rest'.
           fst (remove_currency c loc a why s) = Inr (Row new) \<and> non_negative new \<and>
           faults (snd (remove_currency c loc a why s)) = [] \<and>
           coherent c {location_key loc} (snd (remove_currency c loc a why s)) \<and>
           filter (matches (location_key loc))
             (tables (snd (remove_currency c loc a why s)) ''currency_current'') = new # rest'"
proof -
  let ?patch = "\<lambda>r. r\<lparr>copper := max 0 (copper cur - cp a),
                    silver := max 0 (silver cur - sp a),
                    electrum := max 0 (electrum cur - ep a),
                    gold := max 0 (gold cur - gp a),
                    platinum := max 0 (platinum cur - pp a)\<rparr>"
  have f: "filter (\<lambda>r. storage_location_id r = loc)
             (map (\<lambda>r. if row_id r = row_id cur then ?patch r else r) (tables s ''currency_current'')) =
           ?patch cur # map (\<lambda>r. if row_id r = row_id cur then ?patch r else r) rest"
    using assms(3) by (subst filter_map_patch) simp_all
  show ?thesis
    using assms f
    by (simp add: remove_currency_def remove_currency_from_def bnd_split get_rows [where Q = "{location_key loc}"]
        get_coherent [where Q = "{location_key loc}", simplified] get_cleared write_sel
        first_row_def ret_def raise_def non_negative_def)
qed

lemma remove_each_invariant:
  assumes "faults s = []" and "coherent c {location_key loc} s"
    and "filter (matches (location_key loc)) (tables s ''currency_current'') = cur # rest"
  shows "\<exists>outs r rest'.
           fst (remove_each c loc calls s) = Inr outs \<and> length outs = length calls \<and>
           list_all balance_ok outs \<and>
           filter (matches (location_key loc))
             (tables (snd (remove_each c loc calls s)) ''currency_current'') = r # rest' \<and>
           (calls = [] \<or> non_negative r)"
  using assms
proof (induction calls arbitrary: s cur rest)
  case Nil
  then show ?case by simp
next
  case (Cons call calls)
  obtain a why where call: "call = (a, why)" by (cases call)
  let ?s1 = "snd (remove_currency c loc a why s)"
  from remove_currency_step [OF Cons.prems, of a why]
  obtain new rest1 where
    step: "fst (remove_currency c loc a why s) = Inr (Row new)" and nn: "non_negative new"
    and inv: "faults ?s1 = []" "coherent c {location_key loc} ?s1"
      "filter (matches (location_key loc)) (tables ?s1 ''currency_current'') = new # rest1"
    by blast
  from Cons.IH [OF inv]
  obtain outs r rest' where
    run: "fst (remove_each c loc calls ?s1) = Inr outs" and len: "length outs = length calls"
    and ok: "list_all balance_ok outs"
    and fin: "filter (matches (location_key loc))
                (tables (snd (remove_each c loc calls ?s1)) ''currency_current'') = r # rest'"
    and nn': "calls = [] \<or> non_negative r"
    by blast
  have "non_negative r"
  proof (cases calls)
    case Nil
    with fin inv(3) nn show ?thesis by simp
  next
    case Cons
    with nn' show ?thesis by simp
  qed
  moreover have "balance_ok (Row new)" using nn by (simp add: balance_ok_def)
  ultimately show ?case using call step run len ok fin
    by (simp add: bnd_split)
qed

lemma vault_sel [simp]:
  "faults vault = []" "cache vault = Map.empty" "next_id vault = 1"
  "tables vault ''currency_current'' = [purse]"
  by (simp_all add: vault_def)

subsection \<open>Removals never leave a negative balance\<close>

text \<open>
  C5. After any sequence of \<open>remove_currency\<close> calls on a location that has a currency
  record, every call hands back a balance row, and no denomination (copper, silver,
  electrum, gold, platinum) of a row handed back, or of the row then stored, is negative,
  whatever amounts the calls ask for: each denomination is clamped at zero. (No request
  fails, and the cache entry of this location, if any, agrees with the store.)
\<close>

theorem remove_currency_never_negative:
  assumes "faults s = []" and "coherent c {location_key loc} s"
    and "filter (matches (location_key loc)) (tables s ''currency_current'') \<noteq> []"
  shows "(case fst (remove_each c loc calls s) of
            Inl _ \<Rightarrow> False
          | Inr outs \<Rightarrow> length outs = length calls \<and> list_all balance_ok outs) \<and>
         (case filter (matches (location_key loc))
                 (tables (snd (remove_each c loc calls s)) ''currency_current'') of
            [] \<Rightarrow> False
          | r # _ \<Rightarrow> calls = [] \<or> non_negative r)"
proof -
  from assms(3) obtain cur rest where
    "filter (matches (location_key loc)) (tables s ''currency_current'') = cur # rest"
    by (cases "filter (matches (location_key loc)) (tables s ''currency_current'')") auto
  from remove_each_invariant [OF assms(1,2) this, of calls]
  show ?thesis by auto
qed

theorem remove_currency_never_negative_witness:
  "faults vault = [] \<and> coherent campaign {location_key ''vault''} vault \<and>
   filter (matches (location_key ''vault'')) (tables vault ''currency_current'') \<noteq> [] \<and>
   (case fst (remove_each campaign ''vault''
                [(\<lparr>cp = 7, sp = 0, ep = 0, gp = 4, pp = 0\<rparr>, None),
                 (\<lparr>cp = 0, sp = 0, ep = 0, gp = 20, pp = 0\<rparr>, None)] vault) of
      Inl _ \<Rightarrow> False
    | Inr outs \<Rightarrow> length outs = 2 \<and> list_all balance_ok outs) \<and>
   (case filter (matches (location_key ''vault''))
           (tables (snd (remove_each campaign ''vault''
                [(\<lparr>cp = 7, sp = 0, ep = 0, gp = 4, pp = 0\<rparr>, None),
                 (\<lparr>cp = 0, sp = 0, ep = 0, gp = 20, pp = 0\<rparr>, None)] vault))
              ''currency_current'') of
      [] \<Rightarrow> False
    | r # _ \<Rightarrow> non_negative r)"
proof -
  have a: "faults vault = []" and b: "coherent campaign {location_key ''vault''} vault"
    by (simp_all add: coherent_empty_cache)
  have c: "filter (matches (location_key ''vault'')) (tables vault ''currency_current'') \<noteq> []"
    by (simp add: purse_def empty_row_def)
  show ?thesis
    using a b c
      remove_currency_never_negative [OF a b c,
        of "[(\<lparr>cp = 7, sp = 0, ep = 0, gp = 4, pp = 0\<rparr>, None),
             (\<lparr>cp = 0, sp = 0, ep = 0, gp = 20, pp = 0\<rparr>, None)]"]
    by (simp split: list.splits sum.splits)
qed



lemma distinct_hashes_campaign [simp]: "distinct_hashes campaign Q"
  by (auto simp: distinct_hashes_def campaign_def inj_on_def dest: encode_query_inj)

subsection \<open>A currency transfer from a location without a record\<close>



subsection \<open>A currency transfer is a removal followed by an addition\<close>

text \<open>
  C8. For every \<open>transfer_currency\<close> call, the operation equals the sequential
  composition of an independent \<open>remove_currency\<close> at the source and an independent
  \<open>add_currency\<close> at the destination (\<open>remove_then_add\<close>), and the state it leaves is
  the state left by the steps that ran: nothing that a step wrote is rolled back. The
  example after the theorem has the first request of the addition fail: the vault is
  debited, the removal is in the ledger, the cart has received nothing.
\<close>

theorem transfer_currency_is_remove_then_add:
  "transfer_currency c src dst amount why s = remove_then_add c src dst amount why s \<and>
   snd (transfer_currency c src dst amount why s) =
     (case fst (remove_currency c src amount
                  (Some (''Transfer to another location: '' @ or_else why [])) s) of
        Inl _ \<Rightarrow>
          snd (remove_currency c src amount
                 (Some (''Transfer to another location: '' @ or_else why [])) s)
      | Inr _ \<Rightarrow>
          snd (add_currency c dst amount
                 (Some (''Transfer from another location: '' @ or_else why []))
                 (snd (remove_currency c src amount
                         (Some (''Transfer to another location: '' @ or_else why [])) s))))"
  by (simp add: transfer_currency_def remove_then_add_def bnd_def ret_def
        split: prod.splits sum.splits)

theorem transfer_currency_is_remove_then_add_witness:
  "fst (transfer_currency campaign ''vault'' ''cart''
          \<lparr>cp = 0, sp = 0, ep = 0, gp = 4, pp = 0\<rparr> None failing_vault) = Inl HTTPError \<and>
   map (\<lambda>r. (storage_location_id r, gold r))
     (tables (snd (transfer_currency campaign ''vault'' ''cart''
          \<lparr>cp = 0, sp = 0, ep = 0, gp = 4, pp = 0\<rparr> None failing_vault)) ''currency_current'') =
     [(''vault'', 6)] \<and>
   map (\<lambda>e. (transaction_type e, storage_location_id e, gold e))
     (tables (snd (transfer_currency campaign ''vault'' ''cart''
          \<lparr>cp = 0, sp = 0, ep = 0, gp = 4, pp = 0\<rparr> None failing_vault)) ''currency_ledger'') =
     [(''remove'', ''vault'', 4)]"
  using transfer_currency_is_remove_then_add [of campaign "''vault''" "''cart''"
      "\<lparr>cp = 0, sp = 0, ep = 0, gp = 4, pp = 0\<rparr>" None failing_vault]
  by (simp add: remove_then_add_def remove_currency_def remove_currency_from_def add_currency_def add_currency_from_def get_def
        update_by_id_def update_def insert_rows_def bnd_def ret_def raise_def first_row_def
        first_or_none_def raise_for_status_def Let_def invalidate_related_caches_def
        invalidate_table_cache_def related_def cache_get_def cache_set_def campaign_def
        failing_vault_def vault_def purse_def empty_row_def)



subsection \<open>The initial read of an operation goes through the cache\<close>




end
